theory Spec2Isabelle
  imports Main "HOL-Library.Word" "HOL-Library.Multiset"
begin

unbundle bit_operations_syntax

section \<open>GridMapper: bytes and 16 x 16 grid coordinates\<close>

text \<open>
  \<^verbatim>\<open>coordinates_from_byte\<close> and \<^verbatim>\<open>byte_for_coordinate\<close> are defined twice, with the
  same text, in \<^verbatim>\<open>BloomFilter.py\<close> (lines 74-84) and \<^verbatim>\<open>Bitmap.py\<close> (lines 257-267).
  Python integers are unbounded, so the arguments are \<^typ>\<open>int\<close>; \<open>AND\<close>, \<open>push_bit\<close> and
  \<open>drop_bit\<close> on \<^typ>\<open>int\<close> are the two's-complement operations \<^verbatim>\<open>&\<close>, \<^verbatim>\<open><<\<close> and
  \<^verbatim>\<open>>>\<close> of Python. Neither function raises.
\<close>

definition coordinates_from_byte :: "int \<Rightarrow> int \<times> int" where
  "coordinates_from_byte b =
     (let x = drop_bit 4 (b AND 0xF0);
          y = b AND 0x0F
      in (x, y))"

definition byte_for_coordinate :: "int \<Rightarrow> int \<Rightarrow> int" where
  "byte_for_coordinate x y = (y AND 0xf) + push_bit 4 (x AND 0xf)"

section \<open>The library functions the filter calls\<close>

subsection \<open>\<^verbatim>\<open>hashlib.sha256(...).digest()\<close>: SHA-256 (FIPS 180-4)\<close>

text \<open>
  \<^verbatim>\<open>hashlib\<close> is not part of the repository; the digest is modelled after the standard:
  the message is padded to a multiple of 64 bytes (a \<open>0x80\<close> byte, zeros, the bit length
  as a 64-bit big-endian number), and each 64-byte block is compressed into a state of
  eight 32-bit words. \<open>K256\<close> holds the 64 round constants (the first 32 bits of the
  fractional parts of the cube roots of the first 64 primes) and \<open>H256\<close> the initial state
  (likewise from the square roots of the first 8 primes).
\<close>

type_synonym byte = "8 word"
type_synonym u32 = "32 word"

definition K256 :: "u32 list" where
  "K256 = [
    1116352408, 1899447441, 3049323471, 3921009573,
    961987163, 1508970993, 2453635748, 2870763221,
    3624381080, 310598401, 607225278, 1426881987,
    1925078388, 2162078206, 2614888103, 3248222580,
    3835390401, 4022224774, 264347078, 604807628,
    770255983, 1249150122, 1555081692, 1996064986,
    2554220882, 2821834349, 2952996808, 3210313671,
    3336571891, 3584528711, 113926993, 338241895,
    666307205, 773529912, 1294757372, 1396182291,
    1695183700, 1986661051, 2177026350, 2456956037,
    2730485921, 2820302411, 3259730800, 3345764771,
    3516065817, 3600352804, 4094571909, 275423344,
    430227734, 506948616, 659060556, 883997877,
    958139571, 1322822218, 1537002063, 1747873779,
    1955562222, 2024104815, 2227730452, 2361852424,
    2428436474, 2756734187, 3204031479, 3329325298]"

type_synonym hstate = "u32 \<times> u32 \<times> u32 \<times> u32 \<times> u32 \<times> u32 \<times> u32 \<times> u32"

definition H256 :: hstate where
  "H256 = (1779033703, 3144134277, 1013904242, 2773480762,
           1359893119, 2600822924, 528734635, 1541459225)"

definition Ch :: "u32 \<Rightarrow> u32 \<Rightarrow> u32 \<Rightarrow> u32" where
  "Ch x y z = (x AND y) XOR (NOT x AND z)"
definition Maj :: "u32 \<Rightarrow> u32 \<Rightarrow> u32 \<Rightarrow> u32" where
  "Maj x y z = (x AND y) XOR (x AND z) XOR (y AND z)"
definition Sigma0 :: "u32 \<Rightarrow> u32" where
  "Sigma0 x = word_rotr 2 x XOR word_rotr 13 x XOR word_rotr 22 x"
definition Sigma1 :: "u32 \<Rightarrow> u32" where
  "Sigma1 x = word_rotr 6 x XOR word_rotr 11 x XOR word_rotr 25 x"
definition sigma0 :: "u32 \<Rightarrow> u32" where
  "sigma0 x = word_rotr 7 x XOR word_rotr 18 x XOR drop_bit 3 x"
definition sigma1 :: "u32 \<Rightarrow> u32" where
  "sigma1 x = word_rotr 17 x XOR word_rotr 19 x XOR drop_bit 10 x"

definition be32 :: "u32 \<Rightarrow> byte list" where
  "be32 w = [ucast (drop_bit 24 w), ucast (drop_bit 16 w), ucast (drop_bit 8 w), ucast w]"

definition be64 :: "64 word \<Rightarrow> byte list" where
  "be64 w = [ucast (drop_bit 56 w), ucast (drop_bit 48 w), ucast (drop_bit 40 w), ucast (drop_bit 32 w),
             ucast (drop_bit 24 w), ucast (drop_bit 16 w), ucast (drop_bit 8 w), ucast w]"

fun words_be :: "byte list \<Rightarrow> u32 list" where
  "words_be (a # b # c # d # bs) =
     (push_bit 24 (ucast a) OR push_bit 16 (ucast b) OR push_bit 8 (ucast c) OR ucast d) # words_be bs"
| "words_be _ = []"

definition pad :: "byte list \<Rightarrow> byte list" where
  "pad m = (let l = length m in
     m @ [0x80] @ replicate ((119 - l mod 64) mod 64) 0
       @ be64 (word_of_nat (8 * l)))"

primrec chunks :: "nat \<Rightarrow> byte list \<Rightarrow> byte list list" where
  "chunks 0 bs = []"
| "chunks (Suc k) bs = take 64 bs # chunks k (drop 64 bs)"

primrec schedule :: "nat \<Rightarrow> u32 list \<Rightarrow> u32 list" where
  "schedule 0 w = w"
| "schedule (Suc k) w =
     schedule k (w @ [sigma1 (w ! (length w - 2)) + w ! (length w - 7)
                      + sigma0 (w ! (length w - 15)) + w ! (length w - 16)])"

definition round256 :: "hstate \<Rightarrow> u32 \<times> u32 \<Rightarrow> hstate" where
  "round256 = (\<lambda>(a, b, c, d, e, f, g, h) (k, w).
     let t1 = h + Sigma1 e + Ch e f g + k + w;
          t2 = Sigma0 a + Maj a b c
      in (t1 + t2, a, b, c, d + t1, e, f, g))"

definition add_state :: "hstate \<Rightarrow> hstate \<Rightarrow> hstate" where
  "add_state = (\<lambda>(a, b, c, d, e, f, g, h) (a', b', c', d', e', f', g', h').
     (a + a', b + b', c + c', d + d', e + e', f + f', g + g', h + h'))"

definition compress :: "hstate \<Rightarrow> byte list \<Rightarrow> hstate" where
  "compress st block =
     add_state st (foldl round256 st (zip K256 (schedule 48 (words_be block))))"

definition digest_bytes :: "hstate \<Rightarrow> byte list" where
  "digest_bytes = (\<lambda>(a, b, c, d, e, f, g, h).
     be32 a @ be32 b @ be32 c @ be32 d @ be32 e @ be32 f @ be32 g @ be32 h)"

definition sha256 :: "byte list \<Rightarrow> byte list" where
  "sha256 m = (let p = pad m in digest_bytes (foldl compress H256 (chunks (length p div 64) p)))"

subsection \<open>Python strings, \<^verbatim>\<open>str.encode('utf-8')\<close>, \<^verbatim>\<open>range\<close> and \<^verbatim>\<open>bytes\<close> indexing\<close>

text \<open>
  A Python \<^verbatim>\<open>str\<close> is a sequence of code points in \<open>0 .. 0x10FFFF\<close>; it may hold lone
  surrogates (\<open>0xD800 .. 0xDFFF\<close>), on which \<^verbatim>\<open>encode('utf-8')\<close> raises
  \<^verbatim>\<open>UnicodeEncodeError\<close>. Numbers above \<open>0x10FFFF\<close> are no code points: no \<^verbatim>\<open>str\<close>
  holds them, and the encoder below refuses them too. \<open>str_of\<close> reads a literal such as
  \<open>''Oats''\<close> as the string of its characters.
\<close>

datatype error = UnicodeEncodeError | IndexError

type_synonym str = "nat list"

definition str_of :: "string \<Rightarrow> str" where
  "str_of s = map of_char s"

definition utf8_char :: "nat \<Rightarrow> error + byte list" where
  "utf8_char c =
     (if c < 0x80 then Inr [of_nat c]
      else if c < 0x800 then Inr [of_nat (0xC0 + c div 64), of_nat (0x80 + c mod 64)]
      else if 0xD800 \<le> c \<and> c \<le> 0xDFFF then Inl UnicodeEncodeError
      else if c < 0x10000 then
        Inr [of_nat (0xE0 + c div 4096), of_nat (0x80 + c div 64 mod 64), of_nat (0x80 + c mod 64)]
      else if c < 0x110000 then
        Inr [of_nat (0xF0 + c div 262144), of_nat (0x80 + c div 4096 mod 64),
             of_nat (0x80 + c div 64 mod 64), of_nat (0x80 + c mod 64)]
      else Inl UnicodeEncodeError)"

fun encode_utf8 :: "str \<Rightarrow> error + byte list" where
  "encode_utf8 [] = Inr []"
| "encode_utf8 (c # cs) =
     (case utf8_char c of
        Inl e \<Rightarrow> Inl e
      | Inr bs \<Rightarrow> (case encode_utf8 cs of Inl e \<Rightarrow> Inl e | Inr rest \<Rightarrow> Inr (bs @ rest)))"

text \<open>\<^verbatim>\<open>range(n)\<close> is \<open>0, 1, ..., n - 1\<close>, and empty when \<open>n \<le> 0\<close>.\<close>

definition range_py :: "int \<Rightarrow> int list" where
  "range_py n = map int [0 ..< nat n]"

text \<open>
  \<^verbatim>\<open>h[i]\<close> on a \<^verbatim>\<open>bytes\<close> object gives the byte as an integer in \<open>0 .. 255\<close>; a negative
  index counts from the end; an index out of range raises \<^verbatim>\<open>IndexError\<close>.
\<close>

definition bytes_getitem :: "byte list \<Rightarrow> int \<Rightarrow> error + int" where
  "bytes_getitem h i =
     (let n = int (length h);
          j = (if i < 0 then n + i else i)
      in if 0 \<le> j \<and> j < n then Inr (uint (h ! nat j)) else Inl IndexError)"

section \<open>The toy Bloom filter of \<^verbatim>\<open>Bitmap.py\<close>\<close>

text \<open>
  The filter is a Python \<^verbatim>\<open>set\<close> of integers, mutated in place by \<^verbatim>\<open>bloom.add\<close>. A
  function that mutates the set it is given takes the set's contents and returns the
  contents after the call next to its outcome, so the mutations made before an exception
  stay visible, as they do in Python.
\<close>

text \<open>The loop \<^verbatim>\<open>for i in range(num_hashes): bloom.add(sha256_hash[i])\<close>.\<close>

fun add_bytes :: "byte list \<Rightarrow> int list \<Rightarrow> int set \<Rightarrow> (error + unit) \<times> int set" where
  "add_bytes sha256_hash [] bloom = (Inr (), bloom)"
| "add_bytes sha256_hash (i # ixs) bloom =
     (case bytes_getitem sha256_hash i of
        Inl e \<Rightarrow> (Inl e, bloom)
      | Inr v \<Rightarrow> add_bytes sha256_hash ixs (insert v bloom))"

text \<open>
  \<^verbatim>\<open>add_to_32_bit_bloom_filter\<close> ends with \<^verbatim>\<open>return set\<close>: what it returns is the builtin
  class \<^verbatim>\<open>set\<close>, not the filter.
\<close>

datatype builtin = BuiltinSetClass

definition add_to_32_bit_bloom_filter ::
    "str \<Rightarrow> int \<Rightarrow> int set \<Rightarrow> (error + builtin) \<times> int set" where
  "add_to_32_bit_bloom_filter string_to_add num_hashes bloom =
     (case encode_utf8 string_to_add of
        Inl e \<Rightarrow> (Inl e, bloom)
      | Inr encoded_string \<Rightarrow>
          (let sha256_hash = sha256 encoded_string
           in case add_bytes sha256_hash (range_py num_hashes) bloom of
                (Inl e, bloom') \<Rightarrow> (Inl e, bloom')
              | (Inr u, bloom') \<Rightarrow> (Inr BuiltinSetClass, bloom')))"

text \<open>
  \<^verbatim>\<open>create_bloom_filter\<close> makes a fresh set, which nothing else refers to, and returns it;
  an exception in the loop leaves the function and the set is lost.
\<close>

fun create_loop :: "str list \<Rightarrow> int \<Rightarrow> int set \<Rightarrow> error + int set" where
  "create_loop [] num_hashes bloom = Inr bloom"
| "create_loop (item # entries) num_hashes bloom =
     (case add_to_32_bit_bloom_filter item num_hashes bloom of
        (Inl e, bloom') \<Rightarrow> Inl e
      | (Inr r, bloom') \<Rightarrow> create_loop entries num_hashes bloom')"

definition create_bloom_filter :: "str list \<Rightarrow> int \<Rightarrow> error + int set" where
  "create_bloom_filter entries num_hashes = create_loop entries num_hashes {}"

definition item_in_bloom :: "str \<Rightarrow> int set \<Rightarrow> int \<Rightarrow> error + bool" where
  "item_in_bloom item bloom num_hashes =
     (case create_bloom_filter [item] num_hashes of
        Inl e \<Rightarrow> Inl e
      | Inr item_hash \<Rightarrow> Inr (item_hash \<inter> bloom = item_hash))"

subsection \<open>The default arguments of \<^verbatim>\<open>add_to_32_bit_bloom_filter\<close>\<close>

text \<open>
  \<^verbatim>\<open>def add_to_32_bit_bloom_filter(string_to_add: str, num_hashes = 8, bloom = set())\<close>:
  the default values are evaluated once, when the \<^verbatim>\<open>def\<close> is executed, so one set object
  serves every call that omits \<^verbatim>\<open>bloom\<close>. A store maps each set object to its contents;
  \<open>DefaultBloom\<close> is the object made by the \<^verbatim>\<open>def\<close>. A call names the object it passes,
  or passes none; \<open>bound_num_hashes\<close> and \<open>bound_bloom\<close> are what the parameters are bound
  to.
\<close>

datatype ref = DefaultBloom | Obj nat

type_synonym store = "ref \<Rightarrow> int set"

definition initial_store :: store where
  "initial_store = (\<lambda>r. {})"

definition bound_num_hashes :: "int option \<Rightarrow> int" where
  "bound_num_hashes num_hashes_arg = (case num_hashes_arg of None \<Rightarrow> 8 | Some n \<Rightarrow> n)"

definition bound_bloom :: "ref option \<Rightarrow> ref" where
  "bound_bloom bloom_arg = (case bloom_arg of None \<Rightarrow> DefaultBloom | Some r \<Rightarrow> r)"

definition call_add_to_32_bit_bloom_filter ::
    "str \<Rightarrow> int option \<Rightarrow> ref option \<Rightarrow> store \<Rightarrow> (error + builtin) \<times> store" where
  "call_add_to_32_bit_bloom_filter string_to_add num_hashes_arg bloom_arg \<sigma> =
     (let num_hashes = bound_num_hashes num_hashes_arg;
          bloom = bound_bloom bloom_arg
      in case add_to_32_bit_bloom_filter string_to_add num_hashes (\<sigma> bloom) of
           (res, contents) \<Rightarrow> (res, \<sigma>(bloom := contents)))"

section \<open>The toy Bloom filter of \<^verbatim>\<open>BloomFilter.py\<close>\<close>

text \<open>
  Here \<^verbatim>\<open>num_hashes\<close> is a module-level variable, set to 10 when the module is loaded and
  read by \<^verbatim>\<open>add_to_bloom_filter\<close> at each call; the functions take the module's globals.
  \<^verbatim>\<open>add_to_bloom_filter\<close> has no \<^verbatim>\<open>return\<close>: it returns \<^verbatim>\<open>None\<close>.
\<close>

record globals =
  num_hashes :: int

definition module_globals :: globals where
  "module_globals = \<lparr>num_hashes = 10\<rparr>"

definition add_to_bloom_filter :: "globals \<Rightarrow> str \<Rightarrow> int set \<Rightarrow> (error + unit) \<times> int set" where
  "add_to_bloom_filter g string_to_add bloom =
     (case encode_utf8 string_to_add of
        Inl e \<Rightarrow> (Inl e, bloom)
      | Inr encoded_string \<Rightarrow>
          (let sha256_hash = sha256 encoded_string
           in add_bytes sha256_hash (range_py (num_hashes g)) bloom))"

fun create_loop_BF :: "globals \<Rightarrow> str list \<Rightarrow> int set \<Rightarrow> error + int set" where
  "create_loop_BF g [] bloom = Inr bloom"
| "create_loop_BF g (item # entries) bloom =
     (case add_to_bloom_filter g item bloom of
        (Inl e, bloom') \<Rightarrow> Inl e
      | (Inr u, bloom') \<Rightarrow> create_loop_BF g entries bloom')"

definition create_bloom_filter_BF :: "globals \<Rightarrow> str list \<Rightarrow> error + int set" where
  "create_bloom_filter_BF g entries = create_loop_BF g entries {}"

definition item_in_bloom_BF :: "globals \<Rightarrow> str \<Rightarrow> int set \<Rightarrow> error + bool" where
  "item_in_bloom_BF g item bloom =
     (case create_bloom_filter_BF g [item] of
        Inl e \<Rightarrow> Inl e
      | Inr item_hash \<Rightarrow> Inr (item_hash \<inter> bloom = item_hash))"

section \<open>The sparse hash, as the specification words it\<close>

text \<open>
  The sparse hash of an item is the set of the first \<open>n\<close> bytes of the SHA-256 digest of
  the item's UTF-8 encoding. It is meant for the items that have one (\<open>encodable\<close>); for
  the others the definition gives the empty set.
\<close>

definition encodable :: "str \<Rightarrow> bool" where
  "encodable item = (case encode_utf8 item of Inl e \<Rightarrow> False | Inr bs \<Rightarrow> True)"

definition sparse_hash_spec :: "str \<Rightarrow> int \<Rightarrow> int set" where
  "sparse_hash_spec item n =
     (case encode_utf8 item of
        Inl e \<Rightarrow> {}
      | Inr bs \<Rightarrow> uint ` set (take (nat n) (sha256 bs)))"

section \<open>Lemmas on the grid functions\<close>

lemma and_15: "(x::int) AND 15 = x mod 16"
  using take_bit_eq_mask[of 4 x] by (simp add: take_bit_eq_mod mask_eq_exp_minus_1)

lemma and_240: "drop_bit 4 ((b::int) AND 240) = b div 16 mod 16"
proof -
  have split: "drop_bit 4 (b AND 240) = drop_bit 4 b AND drop_bit 4 (240::int)"
    by (simp add: bit_eq_iff bit_simps)
  have mask: "drop_bit 4 (240::int) = 15"
    by (simp add: drop_bit_eq_div)
  have shift: "drop_bit 4 b = b div 16"
    by (simp add: drop_bit_eq_div)
  show ?thesis
    by (simp only: split mask shift and_15)
qed

lemma coordinates_from_byte_eq: "coordinates_from_byte b = (b div 16 mod 16, b mod 16)"
proof -
  have "drop_bit 4 b = b div 16"
    by (simp add: drop_bit_eq_div)
  then show ?thesis
    by (simp add: coordinates_from_byte_def and_15 and_240)
qed

lemma byte_for_coordinate_eq: "byte_for_coordinate x y = y mod 16 + 16 * (x mod 16)"
  by (simp add: byte_for_coordinate_def and_15 push_bit_eq_mult)

section \<open>Lemmas on the digest and the adding loop\<close>

lemma sha256_length: "length (sha256 m) = 32"
  by (simp add: sha256_def digest_bytes_def Let_def be32_def split: prod.split)

lemma add_bytes_in_range:
  "\<forall>i\<in>set ixs. 0 \<le> i \<and> i < int (length h) \<Longrightarrow>
   add_bytes h ixs bloom = (Inr (), bloom \<union> (\<lambda>i. uint (h ! nat i)) ` set ixs)"
  by (induction ixs arbitrary: bloom) (auto simp: bytes_getitem_def)

lemma add_bytes_append:
  "add_bytes h (xs @ ys) bloom =
     (case add_bytes h xs bloom of (Inl e, b) \<Rightarrow> (Inl e, b) | (Inr u, b) \<Rightarrow> add_bytes h ys b)"
  by (induction xs arbitrary: bloom) (auto split: sum.splits)

lemma add_bytes_mono: "bloom \<subseteq> snd (add_bytes h ixs bloom)"
proof (induction ixs arbitrary: bloom)
  case Nil
  show ?case by simp
next
  case (Cons i ixs)
  show ?case
  proof (cases "bytes_getitem h i")
    case (Inl e)
    then show ?thesis by simp
  next
    case (Inr v)
    have "bloom \<subseteq> insert v bloom" by blast
    also have "\<dots> \<subseteq> snd (add_bytes h ixs (insert v bloom))" by (rule Cons.IH)
    finally show ?thesis using Inr by simp
  qed
qed

lemma take_image_nth:
  "k \<le> length h \<Longrightarrow> (\<lambda>i. f (h ! nat i)) ` set (map int [0 ..< k]) = f ` set (take k h)"
proof -
  assume k: "k \<le> length h"
  have "set (take k h) = (\<lambda>i. h ! i) ` {0 ..< k}"
    using nth_image [OF k] by simp
  then show ?thesis by (simp add: image_image)
qed

lemma add_bytes_range:
  assumes "n \<le> int (length h)"
  shows "add_bytes h (range_py n) bloom = (Inr (), bloom \<union> uint ` set (take (nat n) h))"
proof -
  have k: "nat n \<le> length h" using assms by simp
  have "\<forall>i\<in>set (range_py n). 0 \<le> i \<and> i < int (length h)"
    using assms by (auto simp: range_py_def)
  then have "add_bytes h (range_py n) bloom
      = (Inr (), bloom \<union> (\<lambda>i. uint (h ! nat i)) ` set (range_py n))"
    by (rule add_bytes_in_range)
  also have "(\<lambda>i. uint (h ! nat i)) ` set (range_py n) = uint ` set (take (nat n) h)"
    unfolding range_py_def by (rule take_image_nth [OF k])
  finally show ?thesis .
qed

lemma range_py_split:
  "0 \<le> k \<Longrightarrow> k < n \<Longrightarrow> range_py n = range_py k @ k # map int [Suc (nat k) ..< nat n]"
proof -
  assume a: "0 \<le> k" "k < n"
  then have kn: "nat k < nat n" by simp
  have "nat k + (nat n - nat k) = nat n" using a by linarith
  then have "[0 ..< nat n] = [0 ..< nat k] @ [nat k ..< nat n]"
    using upt_add_eq_append [of 0 "nat k" "nat n - nat k"] by (simp only: le0)
  also have "[nat k ..< nat n] = nat k # [Suc (nat k) ..< nat n]"
    using kn by (simp add: upt_conv_Cons)
  finally show ?thesis using a by (simp add: range_py_def)
qed

lemma add_bytes_overrun:
  assumes "int (length h) < n"
  shows "add_bytes h (range_py n) bloom = (Inl IndexError, bloom \<union> uint ` set h)"
proof -
  let ?k = "int (length h)"
  have "range_py n = range_py ?k @ ?k # map int [Suc (nat ?k) ..< nat n]"
    using assms by (intro range_py_split) auto
  moreover have "add_bytes h (range_py ?k) bloom = (Inr (), bloom \<union> uint ` set (take (nat ?k) h))"
    by (rule add_bytes_range) simp
  moreover have "bytes_getitem h ?k = Inl IndexError"
    by (simp add: bytes_getitem_def)
  ultimately show ?thesis by (simp add: add_bytes_append)
qed

section \<open>What one insertion and one construction compute\<close>

lemma sparse_hash_spec_finite: "finite (sparse_hash_spec item n)"
  by (simp add: sparse_hash_spec_def split: sum.split)

lemma sparse_hash_spec_card: "card (sparse_hash_spec item n) \<le> nat n"
proof (cases "encode_utf8 item")
  case (Inl e)
  then show ?thesis by (simp add: sparse_hash_spec_def)
next
  case (Inr bs)
  have "card (uint ` set (take (nat n) (sha256 bs))) \<le> card (set (take (nat n) (sha256 bs)))"
    by (rule card_image_le) simp
  also have "\<dots> \<le> length (take (nat n) (sha256 bs))"
    by (rule card_length)
  also have "\<dots> \<le> nat n" by simp
  finally show ?thesis using Inr by (simp add: sparse_hash_spec_def)
qed

lemma sparse_hash_spec_32:
  "32 \<le> n \<Longrightarrow> sparse_hash_spec item n = sparse_hash_spec item 32"
  by (simp add: sparse_hash_spec_def sha256_length split: sum.split)

lemma add_to_32_bit_bloom_filter_unencodable:
  "\<not> encodable item \<Longrightarrow> \<exists>e. add_to_32_bit_bloom_filter item n bloom = (Inl e, bloom)"
  by (simp add: add_to_32_bit_bloom_filter_def encodable_def split: sum.splits)

lemma add_to_32_bit_bloom_filter_ok:
  assumes "encodable item" and "n \<le> 32"
  shows "add_to_32_bit_bloom_filter item n bloom
           = (Inr BuiltinSetClass, bloom \<union> sparse_hash_spec item n)"
proof -
  obtain bs where bs: "encode_utf8 item = Inr bs"
    using assms(1) by (auto simp: encodable_def split: sum.splits)
  have "add_bytes (sha256 bs) (range_py n) bloom
          = (Inr (), bloom \<union> uint ` set (take (nat n) (sha256 bs)))"
    using assms(2) by (intro add_bytes_range) (simp add: sha256_length)
  then show ?thesis
    by (simp add: add_to_32_bit_bloom_filter_def sparse_hash_spec_def bs)
qed

lemma add_to_32_bit_bloom_filter_overrun:
  assumes "encodable item" and "32 < n"
  shows "add_to_32_bit_bloom_filter item n bloom
           = (Inl IndexError, bloom \<union> sparse_hash_spec item 32)"
proof -
  obtain bs where bs: "encode_utf8 item = Inr bs"
    using assms(1) by (auto simp: encodable_def split: sum.splits)
  have "add_bytes (sha256 bs) (range_py n) bloom = (Inl IndexError, bloom \<union> uint ` set (sha256 bs))"
    using assms(2) by (intro add_bytes_overrun) (simp add: sha256_length)
  then show ?thesis
    by (simp add: add_to_32_bit_bloom_filter_def sparse_hash_spec_def bs sha256_length)
qed

lemma add_to_32_bit_bloom_filter_Inr_iff:
  "add_to_32_bit_bloom_filter item n bloom = (Inr r, bloom')
     \<longleftrightarrow> encodable item \<and> n \<le> 32 \<and> bloom' = bloom \<union> sparse_hash_spec item n"
proof (cases "encodable item")
  case False
  then show ?thesis
    using add_to_32_bit_bloom_filter_unencodable [OF False, of n bloom] by auto
next
  case True
  show ?thesis
  proof (cases "n \<le> 32")
    case le: True
    show ?thesis
      using add_to_32_bit_bloom_filter_ok [OF True le, of bloom] True le
      by (cases r) auto
  next
    case False
    then have "32 < n" by simp
    then show ?thesis
      using add_to_32_bit_bloom_filter_overrun [OF True, of n bloom] by auto
  qed
qed

lemma add_to_bloom_filter_eq:
  "add_to_bloom_filter g item bloom =
     (case add_to_32_bit_bloom_filter item (num_hashes g) bloom of
        (Inl e, bloom') \<Rightarrow> (Inl e, bloom')
      | (Inr r, bloom') \<Rightarrow> (Inr (), bloom'))"
  by (simp add: add_to_bloom_filter_def add_to_32_bit_bloom_filter_def Let_def
           split: sum.splits prod.splits)

lemma create_loop_BF_eq: "create_loop_BF g entries bloom = create_loop entries (num_hashes g) bloom"
  by (induction entries arbitrary: bloom)
     (auto simp: add_to_bloom_filter_eq split: sum.splits prod.splits)

lemma create_bloom_filter_BF_eq:
  "create_bloom_filter_BF g entries = create_bloom_filter entries (num_hashes g)"
  by (simp add: create_bloom_filter_BF_def create_bloom_filter_def create_loop_BF_eq)

lemma item_in_bloom_BF_eq: "item_in_bloom_BF g item bloom = item_in_bloom item bloom (num_hashes g)"
  by (simp add: item_in_bloom_BF_def item_in_bloom_def create_bloom_filter_BF_eq)

lemma create_loop_Inr_iff:
  "create_loop entries n bloom = Inr S
     \<longleftrightarrow> (\<forall>item\<in>set entries. encodable item \<and> n \<le> 32)
         \<and> S = bloom \<union> (\<Union>item\<in>set entries. sparse_hash_spec item n)"
proof (induction entries arbitrary: bloom)
  case Nil
  show ?case by auto
next
  case (Cons item entries)
  show ?case
  proof (cases "encodable item \<and> n \<le> 32")
    case True
    then have step: "add_to_32_bit_bloom_filter item n bloom
                       = (Inr BuiltinSetClass, bloom \<union> sparse_hash_spec item n)"
      by (simp add: add_to_32_bit_bloom_filter_ok)
    show ?thesis
      using True by (simp add: step Cons.IH Un_assoc)
  next
    case False
    have "\<And>r b. add_to_32_bit_bloom_filter item n bloom \<noteq> (Inr r, b)"
      using False by (auto simp: add_to_32_bit_bloom_filter_Inr_iff)
    then have "\<exists>e. create_loop (item # entries) n bloom = Inl e"
      by (auto split: sum.splits prod.splits)
    then show ?thesis using False by auto
  qed
qed

lemma create_bloom_filter_Inr_iff:
  "create_bloom_filter entries n = Inr S
     \<longleftrightarrow> (\<forall>item\<in>set entries. encodable item \<and> n \<le> 32)
         \<and> S = (\<Union>item\<in>set entries. sparse_hash_spec item n)"
  by (simp add: create_bloom_filter_def create_loop_Inr_iff)

section \<open>Bounds and round trips of the grid functions\<close>

lemma div16_small:
  "0 \<le> (b::int) \<Longrightarrow> b \<le> 255 \<Longrightarrow> 0 \<le> b div 16 \<and> b div 16 \<le> 15"
proof -
  assume b: "0 \<le> b" "b \<le> 255"
  have "b div 16 \<le> 255 div 16" using b(2) by (intro zdiv_mono1) simp_all
  then show ?thesis using b(1) by simp
qed

lemma nibble_bounds:
  "0 \<le> (b::int) div 16 mod 16 \<and> b div 16 mod 16 \<le> 15 \<and> 0 \<le> b mod 16 \<and> b mod 16 \<le> 15"
proof -
  have "0 \<le> b mod 16" "b mod 16 < 16" "0 \<le> b div 16 mod 16" "b div 16 mod 16 < 16"
    by simp_all
  then show ?thesis by linarith
qed

lemma byte_of_coordinates:
  "0 \<le> b \<Longrightarrow> b \<le> 255 \<Longrightarrow> byte_for_coordinate (b div 16 mod 16) (b mod 16) = b"
  using div16_small [of b] by (simp add: byte_for_coordinate_eq)

lemma coordinates_of_byte:
  "0 \<le> x \<Longrightarrow> x \<le> 15 \<Longrightarrow> 0 \<le> y \<Longrightarrow> y \<le> 15 \<Longrightarrow>
   coordinates_from_byte (byte_for_coordinate x y) = (x, y)"
  by (simp add: byte_for_coordinate_eq coordinates_from_byte_eq)

lemma byte_for_coordinate_range:
  "0 \<le> byte_for_coordinate x y \<and> byte_for_coordinate x y \<le> 255"
proof -
  have "0 \<le> y mod 16" "y mod 16 < 16" "0 \<le> x mod 16" "x mod 16 < 16"
    by simp_all
  then show ?thesis unfolding byte_for_coordinate_eq by linarith
qed

lemma coordinates_from_byte_range:
  "coordinates_from_byte b \<in> {0 .. 15} \<times> {0 .. 15}"
  using nibble_bounds [of b] by (simp add: coordinates_from_byte_eq)

section \<open>Single items and example strings\<close>

lemma encodable_ascii_examples:
  "encodable (str_of ''Oats'')" "encodable (str_of ''Peas'')"
  "encodable (str_of ''Beans'')" "encodable (str_of ''Barley'')"
  "encodable (str_of ''A'')" "encodable (str_of ''B'')" "encodable (str_of ''C'')"
  "encodable (str_of ''Tomato'')"
  by (simp_all add: encodable_def str_of_def utf8_char_def)

lemma create_bloom_filter_single:
  "encodable item \<Longrightarrow> n \<le> 32 \<Longrightarrow> create_bloom_filter [item] n = Inr (sparse_hash_spec item n)"
  by (simp add: create_bloom_filter_Inr_iff)

lemma item_in_bloom_ok:
  "encodable item \<Longrightarrow> n \<le> 32 \<Longrightarrow>
   item_in_bloom item bloom n = Inr (sparse_hash_spec item n \<subseteq> bloom)"
  by (auto simp: item_in_bloom_def create_bloom_filter_single)

section \<open>Errors, the empty hash and the size of a filter\<close>

lemma encode_utf8_error: "encode_utf8 item = Inl e \<Longrightarrow> e = UnicodeEncodeError"
  by (induction item arbitrary: e) (auto simp: utf8_char_def split: if_splits sum.splits)

lemma add_to_32_bit_bloom_filter_unencodable_eq:
  "\<not> encodable item \<Longrightarrow> add_to_32_bit_bloom_filter item n bloom = (Inl UnicodeEncodeError, bloom)"
  by (auto simp: add_to_32_bit_bloom_filter_def encodable_def dest: encode_utf8_error split: sum.splits)

lemma sparse_hash_spec_0: "sparse_hash_spec item 0 = {}"
  by (simp add: sparse_hash_spec_def split: sum.split)

lemma create_bloom_filter_single_eq:
  "create_bloom_filter [item] n =
     (case add_to_32_bit_bloom_filter item n {} of (Inl e, b) \<Rightarrow> Inl e | (Inr r, b) \<Rightarrow> Inr b)"
  by (simp add: create_bloom_filter_def split: prod.splits sum.splits)

lemma filter_bounds:
  assumes "create_bloom_filter entries n = Inr S"
  shows "card S \<le> length entries * nat n
         \<and> (\<forall>item\<in>set entries.
               create_bloom_filter [item] n = Inr (sparse_hash_spec item n)
               \<and> card (sparse_hash_spec item n) \<le> card S)"
proof -
  from assms have ok: "\<forall>item\<in>set entries. encodable item \<and> n \<le> 32"
    and S: "S = (\<Union>item\<in>set entries. sparse_hash_spec item n)"
    by (simp_all add: create_bloom_filter_Inr_iff)
  have fin: "finite S"
    unfolding S by (simp add: sparse_hash_spec_finite)
  have "card S \<le> (\<Sum>item\<in>set entries. card (sparse_hash_spec item n))"
    unfolding S by (rule card_UN_le) simp
  also have "\<dots> \<le> (\<Sum>item\<in>set entries. nat n)"
    by (rule sum_mono) (rule sparse_hash_spec_card)
  also have "\<dots> = card (set entries) * nat n"
    by simp
  also have "\<dots> \<le> length entries * nat n"
    by (rule mult_le_mono1) (rule card_length)
  finally have upper: "card S \<le> length entries * nat n" .
  have lower: "card (sparse_hash_spec item n) \<le> card S" if "item \<in> set entries" for item
  proof (rule card_mono [OF fin])
    show "sparse_hash_spec item n \<subseteq> S" using that unfolding S by blast
  qed
  show ?thesis
    using upper lower ok by (simp add: create_bloom_filter_single)
qed

section \<open>Two digests, and a call on the store\<close>

text \<open>The SHA-256 digests of the UTF-8 encodings of \<open>Oats\<close> and \<open>Peas\<close>.\<close>

lemma sha256_Oats:
  "sha256 [79, 97, 116, 115] =
     [78, 22, 72, 242, 1, 240, 155, 112, 90, 78, 11, 157, 14, 128, 190, 40,
      12, 123, 90, 6, 195, 82, 114, 161, 129, 49, 89, 153, 113, 9, 50, 179]"
  by code_simp

lemma sha256_Peas:
  "sha256 [80, 101, 97, 115] =
     [62, 40, 233, 61, 132, 244, 115, 115, 212, 78, 110, 161, 94, 220, 85, 140,
      185, 54, 93, 142, 5, 159, 112, 194, 229, 177, 70, 150, 17, 179, 163, 190]"
  by code_simp

lemma sparse_hash_Oats_8:
  "sparse_hash_spec (str_of ''Oats'') 8 = {78, 22, 72, 242, 1, 240, 155, 112}"
  by (simp add: sparse_hash_spec_def str_of_def utf8_char_def sha256_Oats)

lemma sparse_hash_Peas_8:
  "sparse_hash_spec (str_of ''Peas'') 8 = {62, 40, 233, 61, 132, 244, 115}"
  by (simp add: sparse_hash_spec_def str_of_def utf8_char_def sha256_Peas)

lemma call_add_to_32_bit_bloom_filter_ok:
  assumes "encodable item" and "bound_num_hashes n_arg \<le> 32"
  shows "call_add_to_32_bit_bloom_filter item n_arg bloom_arg \<sigma>
           = (Inr BuiltinSetClass,
              \<sigma>(bound_bloom bloom_arg :=
                  \<sigma> (bound_bloom bloom_arg) \<union> sparse_hash_spec item (bound_num_hashes n_arg)))"
  using assms by (simp add: call_add_to_32_bit_bloom_filter_def add_to_32_bit_bloom_filter_ok Let_def)

section \<open>The grid mapping\<close>

text \<open>
  C1. For every byte \<open>b\<close> in \<open>0 .. 255\<close>, \<open>byte_for_coordinate\<close> applied to the pair that
  \<open>coordinates_from_byte b\<close> returns gives \<open>b\<close> back; for every \<open>x\<close> and \<open>y\<close> in \<open>0 .. 15\<close>,
  \<open>coordinates_from_byte (byte_for_coordinate x y)\<close> is \<open>(x, y)\<close>. The two functions are a
  bijection between the bytes and the 16 x 16 grid, \<open>x\<close> being the high nibble
  (\<open>b div 16\<close>) and \<open>y\<close> the low nibble (\<open>b mod 16\<close>).
\<close>

theorem grid_roundtrip:
  "(0 \<le> b \<and> b \<le> 255 \<longrightarrow>
      (case coordinates_from_byte b of (x, y) \<Rightarrow>
         byte_for_coordinate x y = b \<and> x = b div 16 \<and> y = b mod 16
         \<and> 0 \<le> x \<and> x \<le> 15 \<and> 0 \<le> y \<and> y \<le> 15))
   \<and> (0 \<le> x \<and> x \<le> 15 \<and> 0 \<le> y \<and> y \<le> 15 \<longrightarrow>
      coordinates_from_byte (byte_for_coordinate x y) = (x, y)
      \<and> byte_for_coordinate x y = 16 * x + y
      \<and> 0 \<le> byte_for_coordinate x y \<and> byte_for_coordinate x y \<le> 255)
   \<and> bij_betw coordinates_from_byte {0 .. 255} ({0 .. 15} \<times> {0 .. 15})"
proof (intro conjI impI)
  assume b: "0 \<le> b \<and> b \<le> 255"
  have hi: "0 \<le> b div 16 \<and> b div 16 \<le> 15"
    using b by (simp add: div16_small)
  then have "b div 16 mod 16 = b div 16" by simp
  moreover have "byte_for_coordinate (b div 16 mod 16) (b mod 16) = b"
    using b by (simp add: byte_of_coordinates)
  moreover have "0 \<le> b mod 16 \<and> b mod 16 \<le> 15"
    using nibble_bounds [of b] by simp
  ultimately show "case coordinates_from_byte b of (x, y) \<Rightarrow>
         byte_for_coordinate x y = b \<and> x = b div 16 \<and> y = b mod 16
         \<and> 0 \<le> x \<and> x \<le> 15 \<and> 0 \<le> y \<and> y \<le> 15"
    using hi by (simp add: coordinates_from_byte_eq)
next
  assume xy: "0 \<le> x \<and> x \<le> 15 \<and> 0 \<le> y \<and> y \<le> 15"
  show "coordinates_from_byte (byte_for_coordinate x y) = (x, y)"
    using xy by (simp add: coordinates_of_byte)
  show "byte_for_coordinate x y = 16 * x + y"
    using xy by (simp add: byte_for_coordinate_eq)
  show "0 \<le> byte_for_coordinate x y" "byte_for_coordinate x y \<le> 255"
    using byte_for_coordinate_range [of x y] by simp_all
next
  show "bij_betw coordinates_from_byte {0 .. 255} ({0 .. 15} \<times> {0 .. 15})"
  proof (rule bij_betw_byWitness [where f' = "\<lambda>(x, y). byte_for_coordinate x y"])
    show "\<forall>b\<in>{0 .. 255}. (case coordinates_from_byte b of (x, y) \<Rightarrow> byte_for_coordinate x y) = b"
      by (simp add: coordinates_from_byte_eq byte_of_coordinates)
    show "\<forall>p\<in>{0 .. 15} \<times> {0 .. 15}.
            coordinates_from_byte (case p of (x, y) \<Rightarrow> byte_for_coordinate x y) = p"
      by (auto simp: coordinates_of_byte)
    show "coordinates_from_byte ` {0 .. 255} \<subseteq> {0 .. 15} \<times> {0 .. 15}"
      using coordinates_from_byte_range by blast
    show "(\<lambda>(x, y). byte_for_coordinate x y) ` ({0 .. 15} \<times> {0 .. 15}) \<subseteq> {0 .. 255}"
      using byte_for_coordinate_range by auto
  qed
qed

theorem grid_roundtrip_witness:
  "(0::int) \<le> 171 \<and> (171::int) \<le> 255
   \<and> coordinates_from_byte 171 = (10, 11) \<and> byte_for_coordinate 10 11 = 171
   \<and> coordinates_from_byte (byte_for_coordinate 10 11) = (10, 11)"
  using grid_roundtrip [of 171 10 11] by (simp add: coordinates_from_byte_eq)

text \<open>
  C6, as stated: a coordinate outside \<open>0 .. 15\<close> given to \<open>byte_for_coordinate\<close>, or a value
  outside \<open>0 .. 255\<close> given to \<open>coordinates_from_byte\<close>, is refused with an error. The code
  has no such check: both functions mask their arguments and return a value, for example
  at \<open>x = 16\<close>, \<open>y = -1\<close> and at \<open>b = 256\<close>, \<open>b = -1\<close>.
\<close>

theorem grid_no_validation_counterexample:
  "byte_for_coordinate 16 (-1) = 15 \<and> byte_for_coordinate (-1) 16 = 240
   \<and> coordinates_from_byte 256 = (0, 0) \<and> coordinates_from_byte (-1) = (15, 15)"
  by (simp add: coordinates_from_byte_eq byte_for_coordinate_eq)

text \<open>
  C6, amended: for all integers, in range or not, both functions return a value and never
  raise. \<open>byte_for_coordinate x y\<close> is \<open>16 * (x mod 16) + y mod 16\<close>, a byte in \<open>0 .. 255\<close>,
  the same as for the coordinates reduced modulo 16; \<open>coordinates_from_byte b\<close> is
  \<open>(b div 16 mod 16, b mod 16)\<close>, the same as for \<open>b mod 256\<close>.
\<close>

theorem grid_total_masking:
  "byte_for_coordinate x y = 16 * (x mod 16) + y mod 16
   \<and> 0 \<le> byte_for_coordinate x y \<and> byte_for_coordinate x y \<le> 255
   \<and> byte_for_coordinate x y = byte_for_coordinate (x mod 16) (y mod 16)
   \<and> coordinates_from_byte b = (b div 16 mod 16, b mod 16)
   \<and> coordinates_from_byte b = coordinates_from_byte (b mod 256)"
proof (intro conjI)
  show "byte_for_coordinate x y = 16 * (x mod 16) + y mod 16"
    by (simp only: byte_for_coordinate_eq add.commute)
  show "0 \<le> byte_for_coordinate x y" "byte_for_coordinate x y \<le> 255"
    using byte_for_coordinate_range [of x y] by blast+
  show "byte_for_coordinate x y = byte_for_coordinate (x mod 16) (y mod 16)"
    by (simp only: byte_for_coordinate_eq mod_mod_trivial)
  show "coordinates_from_byte b = (b div 16 mod 16, b mod 16)"
    by (rule coordinates_from_byte_eq)
  have lo: "b mod 256 mod 16 = b mod 16"
    by (rule mod_mod_cancel) simp
  have split: "b mod (16 * 16) = 16 * (b div 16 mod 16) + b mod 16"
    by (rule zmod_zmult2_eq) simp
  have "(16 * (b div 16 mod 16) + b mod 16) div 16 = b div 16 mod 16"
    by simp
  then have "b mod (16 * 16) div 16 = b div 16 mod 16"
    by (simp only: split)
  then have "b mod 256 div 16 = b div 16 mod 16"
    by simp
  then have hi: "b mod 256 div 16 mod 16 = b div 16 mod 16"
    by (simp only: mod_mod_trivial)
  show "coordinates_from_byte b = coordinates_from_byte (b mod 256)"
    by (simp only: coordinates_from_byte_eq lo hi)
qed

section \<open>Insertion\<close>

text \<open>
  C8. The filter is append-only: whatever the string, the number of hashes and the
  outcome of the call (also when it raises), the set after \<open>add_to_32_bit_bloom_filter\<close>
  or \<open>add_to_bloom_filter\<close> contains every element it held before; the same holds for
  every set object of the store after a call of \<open>add_to_32_bit_bloom_filter\<close>.
\<close>

theorem insert_append_only:
  "bloom \<subseteq> snd (add_to_32_bit_bloom_filter item n bloom)
   \<and> bloom \<subseteq> snd (add_to_bloom_filter g item bloom)
   \<and> \<sigma> r \<subseteq> snd (call_add_to_32_bit_bloom_filter item n_arg bloom_arg \<sigma>) r"
proof -
  have a: "bloom \<subseteq> snd (add_to_32_bit_bloom_filter item n bloom)" for n bloom
  proof (cases "encode_utf8 item")
    case (Inl e)
    then show ?thesis by (simp add: add_to_32_bit_bloom_filter_def)
  next
    case (Inr bs)
    obtain res bloom' where run: "add_bytes (sha256 bs) (range_py n) bloom = (res, bloom')"
      by (cases "add_bytes (sha256 bs) (range_py n) bloom")
    have "bloom \<subseteq> bloom'"
      using add_bytes_mono [of bloom "sha256 bs" "range_py n"] by (simp add: run)
    then show ?thesis
      by (simp add: add_to_32_bit_bloom_filter_def Inr run split: sum.split)
  qed
  have b: "bloom \<subseteq> snd (add_to_bloom_filter g item bloom)"
    using a [of bloom "num_hashes g"] by (auto simp: add_to_bloom_filter_eq split: sum.splits prod.splits)
  have c: "\<sigma> r \<subseteq> snd (call_add_to_32_bit_bloom_filter item n_arg bloom_arg \<sigma>) r"
  proof -
    define k where "k = bound_num_hashes n_arg"
    define t where "t = bound_bloom bloom_arg"
    have "snd (call_add_to_32_bit_bloom_filter item n_arg bloom_arg \<sigma>)
            = \<sigma>(t := snd (add_to_32_bit_bloom_filter item k (\<sigma> t)))"
      by (simp add: call_add_to_32_bit_bloom_filter_def k_def t_def Let_def case_prod_beta)
    then show ?thesis using a [of "\<sigma> t" k] by simp
  qed
  show ?thesis using a b c by blast
qed

section \<open>Construction and membership\<close>

text \<open>
  C2. For every list of items that have a UTF-8 encoding and every \<open>num_hashes\<close> \<open>n\<close> in
  \<open>1 .. 32\<close>, \<open>create_bloom_filter entries n\<close> returns the union, over the entries, of the
  items' sparse hashes, the sparse hash of an item being the set of the first \<open>n\<close> bytes
  of the SHA-256 digest of its UTF-8 encoding; that set is also what the one-item filter
  of the item is, and it has at most \<open>n\<close> elements. The same holds in \<^verbatim>\<open>BloomFilter.py\<close>
  when its global \<open>num_hashes\<close> is \<open>n\<close>.
\<close>

theorem create_bloom_filter_is_union:
  assumes "1 \<le> n" and "n \<le> 32" and "\<forall>item\<in>set entries. encodable item"
  shows "create_bloom_filter entries n = Inr (\<Union>item\<in>set entries. sparse_hash_spec item n)
         \<and> create_bloom_filter_BF \<lparr>num_hashes = n\<rparr> entries
             = Inr (\<Union>item\<in>set entries. sparse_hash_spec item n)
         \<and> (\<forall>item\<in>set entries.
               create_bloom_filter [item] n = Inr (sparse_hash_spec item n)
               \<and> card (sparse_hash_spec item n) \<le> nat n)"
proof -
  have whole: "create_bloom_filter entries n = Inr (\<Union>item\<in>set entries. sparse_hash_spec item n)"
    using assms by (simp add: create_bloom_filter_Inr_iff)
  have single: "\<forall>item\<in>set entries. create_bloom_filter [item] n = Inr (sparse_hash_spec item n)"
    using assms by (simp add: create_bloom_filter_single)
  show ?thesis
    using whole single by (simp add: create_bloom_filter_BF_eq sparse_hash_spec_card)
qed

theorem create_bloom_filter_is_union_witness:
  "create_bloom_filter [str_of ''Oats'', str_of ''Peas'', str_of ''Beans'', str_of ''Barley''] 10
     = Inr (sparse_hash_spec (str_of ''Oats'') 10 \<union> sparse_hash_spec (str_of ''Peas'') 10
            \<union> sparse_hash_spec (str_of ''Beans'') 10 \<union> sparse_hash_spec (str_of ''Barley'') 10)
   \<and> card (sparse_hash_spec (str_of ''Oats'') 10) \<le> 10"
  using create_bloom_filter_is_union
          [of 10 "[str_of ''Oats'', str_of ''Peas'', str_of ''Beans'', str_of ''Barley'']"]
        encodable_ascii_examples
  by (simp add: Un_assoc)

text \<open>
  C3. For every set \<open>bloom\<close>, every item that has a UTF-8 encoding and every \<open>n\<close> in
  \<open>1 .. 32\<close>, \<open>item_in_bloom\<close> returns true if and only if the item's sparse hash for \<open>n\<close>
  is a subset of \<open>bloom\<close>.
\<close>

theorem item_in_bloom_iff_subset:
  assumes "encodable item" and "1 \<le> n" and "n \<le> 32"
  shows "item_in_bloom item bloom n = Inr (sparse_hash_spec item n \<subseteq> bloom)
         \<and> item_in_bloom_BF \<lparr>num_hashes = n\<rparr> item bloom = Inr (sparse_hash_spec item n \<subseteq> bloom)"
  using assms by (simp add: item_in_bloom_ok item_in_bloom_BF_eq)

theorem item_in_bloom_iff_subset_witness:
  "item_in_bloom (str_of ''Oats'') (insert 0 (sparse_hash_spec (str_of ''Oats'') 10)) 10 = Inr True
   \<and> item_in_bloom_BF module_globals (str_of ''Oats'')
         (insert 0 (sparse_hash_spec (str_of ''Oats'') 10)) = Inr True"
  using item_in_bloom_iff_subset
          [of "str_of ''Oats''" 10 "insert 0 (sparse_hash_spec (str_of ''Oats'') 10)"]
        encodable_ascii_examples(1)
  by (auto simp: module_globals_def)

text \<open>
  C4. No false negatives: when \<open>create_bloom_filter\<close> has built a filter from a list with
  some \<open>num_hashes\<close>, \<open>item_in_bloom\<close> with the same \<open>num_hashes\<close> returns true for every
  item of the list.
\<close>

theorem no_false_negatives:
  assumes "item \<in> set entries"
  shows "(create_bloom_filter entries n = Inr bloom \<longrightarrow> item_in_bloom item bloom n = Inr True)
         \<and> (create_bloom_filter_BF g entries = Inr bloom \<longrightarrow> item_in_bloom_BF g item bloom = Inr True)"
proof -
  have "item_in_bloom item bloom k = Inr True" if "create_bloom_filter entries k = Inr bloom" for k
  proof -
    from that assms have "encodable item" "k \<le> 32"
      and "bloom = (\<Union>item\<in>set entries. sparse_hash_spec item k)"
      by (auto simp: create_bloom_filter_Inr_iff)
    moreover from this assms have "sparse_hash_spec item k \<subseteq> bloom" by blast
    ultimately show ?thesis by (simp add: item_in_bloom_ok)
  qed
  then show ?thesis by (simp add: create_bloom_filter_BF_eq item_in_bloom_BF_eq)
qed

theorem no_false_negatives_witness:
  "str_of ''Oats'' \<in> set [str_of ''Oats'', str_of ''Peas'']
   \<and> create_bloom_filter [str_of ''Oats'', str_of ''Peas''] 10
       = Inr (sparse_hash_spec (str_of ''Oats'') 10 \<union> sparse_hash_spec (str_of ''Peas'') 10)
   \<and> item_in_bloom (str_of ''Oats'')
         (sparse_hash_spec (str_of ''Oats'') 10 \<union> sparse_hash_spec (str_of ''Peas'') 10) 10 = Inr True"
proof -
  have built: "create_bloom_filter [str_of ''Oats'', str_of ''Peas''] 10
       = Inr (sparse_hash_spec (str_of ''Oats'') 10 \<union> sparse_hash_spec (str_of ''Peas'') 10)"
    using encodable_ascii_examples by (simp add: create_bloom_filter_Inr_iff)
  have mem: "str_of ''Oats'' \<in> set [str_of ''Oats'', str_of ''Peas'']" by simp
  show ?thesis
    using no_false_negatives [OF mem, of 10] built mem by simp
qed

text \<open>
  C7. Order independence: for two lists that are permutations of each other and one
  \<open>num_hashes\<close>, \<open>create_bloom_filter\<close> returns a set for the one exactly when it returns
  the same set for the other; so it is for \<open>["A", "B", "C"]\<close> and \<open>["C", "B", "A"]\<close>.
\<close>

theorem create_bloom_filter_permutation:
  assumes "mset xs = mset ys"
  shows "(create_bloom_filter xs n = Inr S \<longleftrightarrow> create_bloom_filter ys n = Inr S)
         \<and> (create_bloom_filter_BF g xs = Inr S \<longleftrightarrow> create_bloom_filter_BF g ys = Inr S)"
proof -
  have "set xs = set ys" using assms by (rule mset_eq_setD)
  then show ?thesis by (simp add: create_bloom_filter_BF_eq create_bloom_filter_Inr_iff)
qed

theorem create_bloom_filter_permutation_witness:
  "mset [str_of ''A'', str_of ''B'', str_of ''C''] = mset [str_of ''C'', str_of ''B'', str_of ''A'']
   \<and> create_bloom_filter [str_of ''A'', str_of ''B'', str_of ''C''] 10
       = Inr (sparse_hash_spec (str_of ''A'') 10 \<union> sparse_hash_spec (str_of ''B'') 10
              \<union> sparse_hash_spec (str_of ''C'') 10)
   \<and> create_bloom_filter [str_of ''C'', str_of ''B'', str_of ''A''] 10
       = Inr (sparse_hash_spec (str_of ''A'') 10 \<union> sparse_hash_spec (str_of ''B'') 10
              \<union> sparse_hash_spec (str_of ''C'') 10)"
proof -
  have perm: "mset [str_of ''A'', str_of ''B'', str_of ''C''] = mset [str_of ''C'', str_of ''B'', str_of ''A'']"
    by (simp add: add_mset_commute)
  have built: "create_bloom_filter [str_of ''A'', str_of ''B'', str_of ''C''] 10
       = Inr (sparse_hash_spec (str_of ''A'') 10 \<union> sparse_hash_spec (str_of ''B'') 10
              \<union> sparse_hash_spec (str_of ''C'') 10)"
    using encodable_ascii_examples by (simp add: create_bloom_filter_Inr_iff Un_assoc)
  show ?thesis
    using create_bloom_filter_permutation [OF perm, THEN conjunct1, THEN iffD1, OF built] perm built
    by simp
qed

section \<open>The boundaries of \<open>num_hashes\<close>\<close>

text \<open>
  C5, as stated: the sparse-hash operation accepts \<open>num_hashes = 32\<close> and signals an
  invalid argument for \<open>num_hashes = 33\<close> and for \<open>num_hashes = 0\<close>. The code checks nothing:
  with \<open>num_hashes = 0\<close> the loop runs over the empty \<^verbatim>\<open>range(0)\<close>, nothing is raised and
  the set stays as it was.
\<close>

theorem zero_hashes_counterexample:
  "add_to_32_bit_bloom_filter (str_of ''Tomato'') 0 {} = (Inr BuiltinSetClass, {})
   \<and> add_to_bloom_filter \<lparr>num_hashes = 0\<rparr> (str_of ''Tomato'') {} = (Inr (), {})
   \<and> create_bloom_filter [str_of ''Tomato''] 0 = Inr {}"
proof -
  have "add_to_32_bit_bloom_filter (str_of ''Tomato'') 0 {} = (Inr BuiltinSetClass, {})"
    using add_to_32_bit_bloom_filter_ok [OF encodable_ascii_examples(8), of 0 "{}"]
    by (simp add: sparse_hash_spec_0)
  then show ?thesis
    by (simp add: add_to_bloom_filter_eq create_bloom_filter_single_eq)
qed

text \<open>
  C5, amended: for every string that has a UTF-8 encoding, \<open>num_hashes = 32\<close> succeeds
  and adds the set of the 32 digest bytes, of at most 32 elements; \<open>num_hashes = 33\<close>
  raises \<^verbatim>\<open>IndexError\<close> at \<^verbatim>\<open>sha256_hash[32]\<close>, after the 32 digest bytes have been added to
  the set it was given; \<open>num_hashes = 0\<close> raises nothing and adds nothing. For a string
  that has no UTF-8 encoding, every \<open>num_hashes\<close> raises \<^verbatim>\<open>UnicodeEncodeError\<close> and the set
  stays as it was.
\<close>

theorem sparse_hash_boundaries:
  "(encodable item \<longrightarrow>
      add_to_32_bit_bloom_filter item 32 bloom = (Inr BuiltinSetClass, bloom \<union> sparse_hash_spec item 32)
      \<and> create_bloom_filter [item] 32 = Inr (sparse_hash_spec item 32)
      \<and> card (sparse_hash_spec item 32) \<le> 32
      \<and> add_to_32_bit_bloom_filter item 33 bloom = (Inl IndexError, bloom \<union> sparse_hash_spec item 32)
      \<and> create_bloom_filter [item] 33 = Inl IndexError
      \<and> add_to_32_bit_bloom_filter item 0 bloom = (Inr BuiltinSetClass, bloom)
      \<and> create_bloom_filter [item] 0 = Inr {}
      \<and> add_to_bloom_filter \<lparr>num_hashes = 32\<rparr> item bloom = (Inr (), bloom \<union> sparse_hash_spec item 32)
      \<and> add_to_bloom_filter \<lparr>num_hashes = 33\<rparr> item bloom
          = (Inl IndexError, bloom \<union> sparse_hash_spec item 32)
      \<and> add_to_bloom_filter \<lparr>num_hashes = 0\<rparr> item bloom = (Inr (), bloom))
   \<and> (\<not> encodable item \<longrightarrow>
      add_to_32_bit_bloom_filter item n bloom = (Inl UnicodeEncodeError, bloom)
      \<and> add_to_bloom_filter \<lparr>num_hashes = n\<rparr> item bloom = (Inl UnicodeEncodeError, bloom)
      \<and> create_bloom_filter [item] n = Inl UnicodeEncodeError)"
proof (intro conjI impI)
  assume enc: "encodable item"
  show a32: "add_to_32_bit_bloom_filter item 32 bloom
               = (Inr BuiltinSetClass, bloom \<union> sparse_hash_spec item 32)" for bloom
    using enc by (simp add: add_to_32_bit_bloom_filter_ok)
  show a33: "add_to_32_bit_bloom_filter item 33 bloom
               = (Inl IndexError, bloom \<union> sparse_hash_spec item 32)" for bloom
    using enc by (simp add: add_to_32_bit_bloom_filter_overrun)
  show a0: "add_to_32_bit_bloom_filter item 0 bloom = (Inr BuiltinSetClass, bloom)" for bloom
    using enc by (simp add: add_to_32_bit_bloom_filter_ok sparse_hash_spec_0)
  show "create_bloom_filter [item] 32 = Inr (sparse_hash_spec item 32)"
    by (simp add: create_bloom_filter_single_eq a32)
  show "card (sparse_hash_spec item 32) \<le> 32"
    using sparse_hash_spec_card [of item 32] by simp
  show "create_bloom_filter [item] 33 = Inl IndexError"
    by (simp add: create_bloom_filter_single_eq a33)
  show "create_bloom_filter [item] 0 = Inr {}"
    by (simp add: create_bloom_filter_single_eq a0)
  show "add_to_bloom_filter \<lparr>num_hashes = 32\<rparr> item bloom = (Inr (), bloom \<union> sparse_hash_spec item 32)"
    by (simp add: add_to_bloom_filter_eq a32)
  show "add_to_bloom_filter \<lparr>num_hashes = 33\<rparr> item bloom
          = (Inl IndexError, bloom \<union> sparse_hash_spec item 32)"
    by (simp add: add_to_bloom_filter_eq a33)
  show "add_to_bloom_filter \<lparr>num_hashes = 0\<rparr> item bloom = (Inr (), bloom)"
    by (simp add: add_to_bloom_filter_eq a0)
next
  assume "\<not> encodable item"
  then show u: "add_to_32_bit_bloom_filter item n bloom = (Inl UnicodeEncodeError, bloom)" for bloom
    by (rule add_to_32_bit_bloom_filter_unencodable_eq)
  show "add_to_bloom_filter \<lparr>num_hashes = n\<rparr> item bloom = (Inl UnicodeEncodeError, bloom)"
    by (simp add: add_to_bloom_filter_eq u)
  show "create_bloom_filter [item] n = Inl UnicodeEncodeError"
    by (simp add: create_bloom_filter_single_eq u)
qed

theorem sparse_hash_boundaries_witness:
  "encodable (str_of ''Tomato'')
   \<and> create_bloom_filter [str_of ''Tomato''] 32 = Inr (sparse_hash_spec (str_of ''Tomato'') 32)
   \<and> create_bloom_filter [str_of ''Tomato''] 33 = Inl IndexError
   \<and> create_bloom_filter [str_of ''Tomato''] 0 = Inr {}
   \<and> \<not> encodable [0xD800]
   \<and> create_bloom_filter [[0xD800]] 32 = Inl UnicodeEncodeError"
proof -
  have bad: "\<not> encodable [0xD800]"
    by (simp add: encodable_def utf8_char_def)
  show ?thesis
    using sparse_hash_boundaries [where item = "str_of ''Tomato''" and bloom = "{}" and n = 32]
          sparse_hash_boundaries [where item = "[0xD800]" and bloom = "{}" and n = 32]
          encodable_ascii_examples(8) bad
    by simp
qed

section \<open>The size of a filter\<close>

text \<open>
  C9. A filter that \<open>create_bloom_filter\<close> has built from \<open>k\<close> items with \<open>num_hashes = n\<close>
  has at most \<open>k * n\<close> elements, and at least as many as the sparse hash (the one-item
  filter) of each of its items; for \<open>n = 10\<close> and the items Oats, Peas, Beans and Barley
  that is at most 40.
\<close>

theorem filter_size_bounds:
  "(create_bloom_filter entries n = Inr S \<longrightarrow>
      card S \<le> length entries * nat n
      \<and> (\<forall>item\<in>set entries.
            create_bloom_filter [item] n = Inr (sparse_hash_spec item n)
            \<and> card (sparse_hash_spec item n) \<le> card S))
   \<and> (create_bloom_filter_BF g entries = Inr S \<longrightarrow>
      card S \<le> length entries * nat (num_hashes g)
      \<and> (\<forall>item\<in>set entries.
            create_bloom_filter_BF g [item] = Inr (sparse_hash_spec item (num_hashes g))
            \<and> card (sparse_hash_spec item (num_hashes g)) \<le> card S))"
  using filter_bounds [of entries n S] filter_bounds [of entries "num_hashes g" S]
  by (simp add: create_bloom_filter_BF_eq)

theorem filter_size_bounds_witness:
  "create_bloom_filter [str_of ''Oats'', str_of ''Peas'', str_of ''Beans'', str_of ''Barley''] 10
     = Inr (sparse_hash_spec (str_of ''Oats'') 10 \<union> sparse_hash_spec (str_of ''Peas'') 10
            \<union> sparse_hash_spec (str_of ''Beans'') 10 \<union> sparse_hash_spec (str_of ''Barley'') 10)
   \<and> card (sparse_hash_spec (str_of ''Oats'') 10 \<union> sparse_hash_spec (str_of ''Peas'') 10
            \<union> sparse_hash_spec (str_of ''Beans'') 10 \<union> sparse_hash_spec (str_of ''Barley'') 10) \<le> 40
   \<and> card (sparse_hash_spec (str_of ''Oats'') 10)
       \<le> card (sparse_hash_spec (str_of ''Oats'') 10 \<union> sparse_hash_spec (str_of ''Peas'') 10
            \<union> sparse_hash_spec (str_of ''Beans'') 10 \<union> sparse_hash_spec (str_of ''Barley'') 10)"
proof -
  let ?S = "sparse_hash_spec (str_of ''Oats'') 10 \<union> sparse_hash_spec (str_of ''Peas'') 10
            \<union> sparse_hash_spec (str_of ''Beans'') 10 \<union> sparse_hash_spec (str_of ''Barley'') 10"
  let ?entries = "[str_of ''Oats'', str_of ''Peas'', str_of ''Beans'', str_of ''Barley'']"
  have built: "create_bloom_filter ?entries 10 = Inr ?S"
    using encodable_ascii_examples by (simp add: create_bloom_filter_Inr_iff Un_assoc)
  show ?thesis
    using filter_size_bounds [of ?entries 10 ?S, THEN conjunct1, rule_format, OF built] built
    by simp
qed

section \<open>The shared default argument\<close>

text \<open>
  C10. In \<^verbatim>\<open>Bitmap.py\<close>, the calls of \<open>add_to_32_bit_bloom_filter\<close> that omit \<open>bloom\<close> all
  mutate the one set object made for the default: after two such calls, with strings that
  have a UTF-8 encoding and at most 32 hashes, that object holds what it held before
  and the bytes of both calls, and no other object has changed. The state after the second
  call therefore depends on the first: after \<open>Oats\<close> and then \<open>Peas\<close>, the object holds the
  bytes of \<open>Oats\<close> too, which a first call with \<open>Peas\<close> alone does not give.
\<close>

theorem default_bloom_is_shared:
  assumes "encodable s1" and "encodable s2"
      and "bound_num_hashes a1 \<le> 32" and "bound_num_hashes a2 \<le> 32"
  shows "(case call_add_to_32_bit_bloom_filter s1 a1 None \<sigma> of (r1, \<sigma>1) \<Rightarrow>
            case call_add_to_32_bit_bloom_filter s2 a2 None \<sigma>1 of (r2, \<sigma>2) \<Rightarrow>
              r1 = Inr BuiltinSetClass \<and> r2 = Inr BuiltinSetClass
              \<and> \<sigma>1 DefaultBloom = \<sigma> DefaultBloom \<union> sparse_hash_spec s1 (bound_num_hashes a1)
              \<and> \<sigma>2 DefaultBloom = \<sigma> DefaultBloom \<union> sparse_hash_spec s1 (bound_num_hashes a1)
                                    \<union> sparse_hash_spec s2 (bound_num_hashes a2)
              \<and> (\<forall>r. r \<noteq> DefaultBloom \<longrightarrow> \<sigma>2 r = \<sigma> r))"
  using assms by (simp add: call_add_to_32_bit_bloom_filter_ok bound_bloom_def)

theorem default_bloom_is_shared_witness:
  "(case call_add_to_32_bit_bloom_filter (str_of ''Oats'') None None initial_store of (r1, \<sigma>1) \<Rightarrow>
      case call_add_to_32_bit_bloom_filter (str_of ''Peas'') None None \<sigma>1 of (r2, \<sigma>2) \<Rightarrow>
        \<sigma>1 DefaultBloom = {78, 22, 72, 242, 1, 240, 155, 112}
        \<and> \<sigma>2 DefaultBloom = {78, 22, 72, 242, 1, 240, 155, 112, 62, 40, 233, 61, 132, 244, 115}
        \<and> \<sigma>2 DefaultBloom \<noteq> sparse_hash_spec (str_of ''Peas'') 8)
   \<and> snd (call_add_to_32_bit_bloom_filter (str_of ''Peas'') None None initial_store) DefaultBloom
       = sparse_hash_spec (str_of ''Peas'') 8"
proof -
  have n: "bound_num_hashes None = 8" by (simp add: bound_num_hashes_def)
  have fresh: "snd (call_add_to_32_bit_bloom_filter (str_of ''Peas'') None None initial_store) DefaultBloom
       = sparse_hash_spec (str_of ''Peas'') 8"
    using encodable_ascii_examples(2)
    by (simp add: call_add_to_32_bit_bloom_filter_ok n bound_bloom_def initial_store_def)
  have differ: "({78, 22, 72, 242, 1, 240, 155, 112, 62, 40, 233, 61, 132, 244, 115} :: int set)
                  \<noteq> {62, 40, 233, 61, 132, 244, 115}"
  proof
    assume eq: "({78, 22, 72, 242, 1, 240, 155, 112, 62, 40, 233, 61, 132, 244, 115} :: int set)
                  = {62, 40, 233, 61, 132, 244, 115}"
    have "(78::int) \<in> {78, 22, 72, 242, 1, 240, 155, 112, 62, 40, 233, 61, 132, 244, 115}"
      by simp
    then have "(78::int) \<in> {62, 40, 233, 61, 132, 244, 115}"
      by (simp only: eq)
    then show False by simp
  qed
  show ?thesis
    using default_bloom_is_shared [of "str_of ''Oats''" "str_of ''Peas''" None None initial_store]
          encodable_ascii_examples(1,2) fresh differ
    by (simp add: n sparse_hash_Oats_8 sparse_hash_Peas_8 initial_store_def split: prod.splits)
       (auto simp: insert_commute)
qed

end
